theory Spec2Isabelle
  imports Complex_Main "HOL-Library.Word"
begin

section \<open>Exceptions and outcomes\<close>

text \<open>
  The script \<^verbatim>\<open>fix_app_icon.py\<close> calls the operating system and the Pillow imaging
  library. Every call that can raise is a function whose result says so. The exception
  classes below are all subclasses of Python's \<^verbatim>\<open>Exception\<close>; each carries the text that
  \<^verbatim>\<open>str(e)\<close> yields.
\<close>

datatype exn =
    FileNotFoundError string
  | IsADirectoryError string
  | NotADirectoryError string
  | OSError string
  | ValueError string

fun str_exn :: "exn \<Rightarrow> string" where
  "str_exn (FileNotFoundError m) = m"
| "str_exn (IsADirectoryError m) = m"
| "str_exn (NotADirectoryError m) = m"
| "str_exn (OSError m) = m"
| "str_exn (ValueError m) = m"

datatype outcome = Returned | Raised exn

section \<open>Images\<close>

text \<open>
  A decoded image: its size (width, height) and its pixels in row-major order, one tuple
  of 8-bit bands per pixel. The band layout is the Pillow mode; the modes that a PNG icon
  decodes to are modelled: \<^verbatim>\<open>L\<close>, \<^verbatim>\<open>LA\<close>, \<^verbatim>\<open>RGB\<close> and \<^verbatim>\<open>RGBA\<close>.
\<close>

type_synonym byte = "8 word"

datatype pixdata =
    DataL "byte list"
  | DataLA "(byte \<times> byte) list"
  | DataRGB "(byte \<times> byte \<times> byte) list"
  | DataRGBA "(byte \<times> byte \<times> byte \<times> byte) list"

datatype mode = ModeL | ModeLA | ModeRGB | ModeRGBA

record image =
  im_size :: "nat \<times> nat"
  im_data :: pixdata

fun data_mode :: "pixdata \<Rightarrow> mode" where
  "data_mode (DataL _) = ModeL"
| "data_mode (DataLA _) = ModeLA"
| "data_mode (DataRGB _) = ModeRGB"
| "data_mode (DataRGBA _) = ModeRGBA"

definition mode :: "image \<Rightarrow> mode" where
  "mode img = data_mode (im_data img)"

fun has_alpha_mode :: "mode \<Rightarrow> bool" where
  "has_alpha_mode ModeLA = True"
| "has_alpha_mode ModeRGBA = True"
| "has_alpha_mode _ = False"

fun data_length :: "pixdata \<Rightarrow> nat" where
  "data_length (DataL xs) = length xs"
| "data_length (DataLA xs) = length xs"
| "data_length (DataRGB xs) = length xs"
| "data_length (DataRGBA xs) = length xs"

definition wf_image :: "image \<Rightarrow> bool" where
  "wf_image img = (data_length (im_data img) = fst (im_size img) * snd (im_size img))"

text \<open>
  \<^verbatim>\<open>img.convert('RGBA')\<close>: grey levels are replicated into the three colour bands, and a
  mode without alpha gets alpha 255.
\<close>

fun rgba_pixels :: "pixdata \<Rightarrow> (byte \<times> byte \<times> byte \<times> byte) list" where
  "rgba_pixels (DataL xs) = map (\<lambda>l. (l, l, l, 255)) xs"
| "rgba_pixels (DataLA xs) = map (\<lambda>(l, a). (l, l, l, a)) xs"
| "rgba_pixels (DataRGB xs) = map (\<lambda>(r, g, b). (r, g, b, 255)) xs"
| "rgba_pixels (DataRGBA xs) = xs"

definition convert_RGBA :: "image \<Rightarrow> image" where
  "convert_RGBA img = img\<lparr>im_data := DataRGBA (rgba_pixels (im_data img))\<rparr>"

text \<open>\<^verbatim>\<open>Image.new('RGB', size, color)\<close>: every pixel is the colour.\<close>

definition Image_new_RGB :: "nat \<times> nat \<Rightarrow> byte \<times> byte \<times> byte \<Rightarrow> image" where
  "Image_new_RGB sz color =
     \<lparr>im_size = sz, im_data = DataRGB (replicate (fst sz * snd sz) color)\<rparr>"

text \<open>\<^verbatim>\<open>img.split()\<close>: one \<^verbatim>\<open>L\<close> image per band, in band order.\<close>

fun bands :: "pixdata \<Rightarrow> byte list list" where
  "bands (DataL xs) = [xs]"
| "bands (DataLA xs) = [map fst xs, map snd xs]"
| "bands (DataRGB xs) =
     [map (\<lambda>(r, g, b). r) xs, map (\<lambda>(r, g, b). g) xs, map (\<lambda>(r, g, b). b) xs]"
| "bands (DataRGBA xs) =
     [map (\<lambda>(r, g, b, a). r) xs, map (\<lambda>(r, g, b, a). g) xs,
      map (\<lambda>(r, g, b, a). b) xs, map (\<lambda>(r, g, b, a). a) xs]"

definition split_im :: "image \<Rightarrow> image list" where
  "split_im img = map (\<lambda>b. \<lparr>im_size = im_size img, im_data = DataL b\<rparr>) (bands (im_data img))"

text \<open>
  \<^verbatim>\<open>background.paste(img, mask=m)\<close> for an \<^verbatim>\<open>RGB\<close> destination, an \<^verbatim>\<open>RGBA\<close> source and an
  \<^verbatim>\<open>L\<close> mask of one size, pasted at the origin. Pillow blends every band of every pixel in
  integer arithmetic: with \<^verbatim>\<open>t = out * (255 - mask) + in * mask + 128\<close> the new value is
  \<^verbatim>\<open>((t >> 8) + t) >> 8\<close>, stored in a byte. Images of different sizes raise
  \<^verbatim>\<open>ValueError\<close>.
\<close>

definition DIV255 :: "nat \<Rightarrow> nat" where
  "DIV255 a = (let tmp = a + 128 in drop_bit 8 (drop_bit 8 tmp + tmp))"

definition BLEND :: "byte \<Rightarrow> byte \<Rightarrow> byte \<Rightarrow> byte" where
  "BLEND msk in1 in2 =
     of_nat (DIV255 (unat in1 * (255 - unat msk) + unat in2 * unat msk))"

fun paste_pixel :: "byte \<times> byte \<times> byte \<Rightarrow> byte \<times> byte \<times> byte \<times> byte \<Rightarrow> byte
                    \<Rightarrow> byte \<times> byte \<times> byte" where
  "paste_pixel (r, g, b) (r', g', b', a') m = (BLEND m r r', BLEND m g g', BLEND m b b')"

fun paste_data :: "pixdata \<Rightarrow> pixdata \<Rightarrow> pixdata \<Rightarrow> exn + pixdata" where
  "paste_data (DataRGB out) (DataRGBA inp) (DataL msk) =
     Inr (DataRGB (map (\<lambda>(p, q, m). paste_pixel p q m) (zip out (zip inp msk))))"
| "paste_data _ _ _ = Inl (ValueError ''bad mode'')"

definition paste :: "image \<Rightarrow> image \<Rightarrow> image \<Rightarrow> exn + image" where
  "paste background im msk =
     (if im_size im \<noteq> im_size background \<or> im_size msk \<noteq> im_size background
      then Inl (ValueError ''images do not match'')
      else (case paste_data (im_data background) (im_data im) (im_data msk) of
              Inl e \<Rightarrow> Inl e
            | Inr d \<Rightarrow> Inr (background\<lparr>im_data := d\<rparr>)))"

section \<open>The file system and the console\<close>

text \<open>
  A file holds either a PNG that decodes to an image, or bytes on which decoding raises
  with the given message (corrupt data, an unsupported format, an unreadable file). The
  world is the file system, the lines printed so far, and what the operating system
  refuses: \<open>rename_fault w src dst = Some m\<close> when renaming \<open>src\<close> to \<open>dst\<close> is refused
  with message \<open>m\<close> (permission denied, read-only volume, ...), and
  \<open>save_fault w p = Some m\<close> when writing \<open>p\<close> is.
\<close>

datatype fdata = Png image | Undecodable string

datatype node = File fdata | Dir

type_synonym path = string

record world =
  fs :: "path \<rightharpoonup> node"
  stdout :: "string list"
  rename_fault :: "path \<Rightarrow> path \<Rightarrow> string option"
  save_fault :: "path \<Rightarrow> string option"

definition print :: "string \<Rightarrow> world \<Rightarrow> world" where
  "print s w = w\<lparr>stdout := stdout w @ [s]\<rparr>"

definition os_path_exists :: "world \<Rightarrow> path \<Rightarrow> bool" where
  "os_path_exists w p = (fs w p \<noteq> None)"

definition os_path_join :: "path \<Rightarrow> path \<Rightarrow> path" where
  "os_path_join a b =
     (if b \<noteq> [] \<and> hd b = CHR ''/'' then b
      else if a = [] \<or> last a = CHR ''/'' then a @ b
      else a @ ''/'' @ b)"

text \<open>
  \<^verbatim>\<open>os.rename(src, dst)\<close> on a POSIX system: a file silently replaces a file at \<open>dst\<close>; a
  file cannot replace a directory, nor a directory a file.
\<close>

definition os_rename :: "world \<Rightarrow> path \<Rightarrow> path \<Rightarrow> outcome \<times> world" where
  "os_rename w src dst =
     (case fs w src of
        None \<Rightarrow> (Raised (FileNotFoundError (''[Errno 2] No such file or directory: '' @ src)), w)
      | Some n \<Rightarrow>
          (if n \<noteq> Dir \<and> fs w dst = Some Dir
           then (Raised (IsADirectoryError (''[Errno 21] Is a directory: '' @ dst)), w)
           else if n = Dir \<and> fs w dst \<noteq> None \<and> fs w dst \<noteq> Some Dir
           then (Raised (NotADirectoryError (''[Errno 20] Not a directory: '' @ dst)), w)
           else (case rename_fault w src dst of
                   Some m \<Rightarrow> (Raised (OSError m), w)
                 | None \<Rightarrow> (Returned, w\<lparr>fs := (fs w)(src := None, dst \<mapsto> n)\<rparr>))))"

text \<open>\<^verbatim>\<open>Image.open(path)\<close> together with the decoding of the pixel data.\<close>

definition Image_open :: "world \<Rightarrow> path \<Rightarrow> exn + image" where
  "Image_open w p =
     (case fs w p of
        None \<Rightarrow> Inl (FileNotFoundError (''[Errno 2] No such file or directory: '' @ p))
      | Some Dir \<Rightarrow> Inl (IsADirectoryError (''[Errno 21] Is a directory: '' @ p))
      | Some (File (Undecodable m)) \<Rightarrow> Inl (OSError m)
      | Some (File (Png img)) \<Rightarrow> Inr img)"

text \<open>\<^verbatim>\<open>im.save(path, 'PNG')\<close>: the file at \<open>path\<close> becomes a PNG of the image.\<close>

definition save :: "world \<Rightarrow> image \<Rightarrow> path \<Rightarrow> outcome \<times> world" where
  "save w img p =
     (if fs w p = Some Dir
      then (Raised (IsADirectoryError (''[Errno 21] Is a directory: '' @ p)), w)
      else (case save_fault w p of
              Some m \<Rightarrow> (Raised (OSError m), w)
            | None \<Rightarrow> (Returned, w\<lparr>fs := (fs w)(p \<mapsto> File (Png img))\<rparr>)))"

section \<open>The script\<close>

text \<open>
  The messages, as printed. The pictographs of the source are written as their UTF-8
  bytes; each element of \<open>stdout\<close> is the argument of one \<^verbatim>\<open>print\<close> call.
\<close>

definition check_mark :: string where
  "check_mark = [CHR 0xE2, CHR 0x9C, CHR 0x85]"

definition cross_mark :: string where
  "cross_mark = [CHR 0xE2, CHR 0x9D, CHR 0x8C]"

definition warning_sign :: string where
  "warning_sign = [CHR 0xE2, CHR 0x9A, CHR 0xA0, CHR 0xEF, CHR 0xB8, CHR 0x8F]"

definition party_popper :: string where
  "party_popper = [CHR 0xF0, CHR 0x9F, CHR 0x8E, CHR 0x89]"

definition memo :: string where
  "memo = [CHR 0xF0, CHR 0x9F, CHR 0x93, CHR 0x9D]"

definition fixed_msg :: "path \<Rightarrow> path \<Rightarrow> string" where
  "fixed_msg image_path output_path =
     check_mark @ '' Fixed: '' @ image_path @ '' -> '' @ output_path"

definition error_msg :: "path \<Rightarrow> exn \<Rightarrow> string" where
  "error_msg image_path e =
     cross_mark @ '' Error processing '' @ image_path @ '': '' @ str_exn e"

definition dir_not_found_msg :: "path \<Rightarrow> string" where
  "dir_not_found_msg d = cross_mark @ '' App icon directory not found: '' @ d"

definition icon_not_found_msg :: "string \<Rightarrow> string" where
  "icon_not_found_msg icon_file = warning_sign @ ''  Icon file not found: '' @ icon_file"

definition complete_msgs :: "string list" where
  "complete_msgs =
     [CHR 0x0A # party_popper @ '' App icon transparency fix complete!'',
      memo @ '' Next steps:'',
      ''1. Clean and rebuild your project'',
      ''2. Archive and upload to App Store Connect'']"

text \<open>The body of the \<^verbatim>\<open>try\<close> block of \<^verbatim>\<open>remove_transparency\<close>.\<close>

definition remove_transparency_try :: "world \<Rightarrow> path \<Rightarrow> path \<Rightarrow> outcome \<times> world" where
  "remove_transparency_try w image_path output_path =
     (case Image_open w image_path of
        Inl e \<Rightarrow> (Raised e, w)
      | Inr img0 \<Rightarrow>
          (let img = (if mode img0 \<noteq> ModeRGBA then convert_RGBA img0 else img0);
               background = Image_new_RGB (im_size img) (255, 255, 255)
           in (case paste background img (last (split_im img)) of
                 Inl e \<Rightarrow> (Raised e, w)
               | Inr background' \<Rightarrow>
                   (case save w background' output_path of
                      (Raised e, w1) \<Rightarrow> (Raised e, w1)
                    | (Returned, w1) \<Rightarrow>
                        (Returned, print (fixed_msg image_path output_path) w1)))))"

text \<open>\<^verbatim>\<open>except Exception as e\<close>: every exception of the body is caught and reported.\<close>

definition remove_transparency :: "world \<Rightarrow> path \<Rightarrow> path \<Rightarrow> outcome \<times> world" where
  "remove_transparency w image_path output_path =
     (case remove_transparency_try w image_path output_path of
        (Raised e, w1) \<Rightarrow> (Returned, print (error_msg image_path e) w1)
      | (Returned, w1) \<Rightarrow> (Returned, w1))"

definition app_icon_dir :: path where
  "app_icon_dir = ''SaviPets/Assets.xcassets/AppIcon.appiconset''"

definition icon_files :: "string list" where
  "icon_files =
     [''SaviPets-iOS-Default-1024x1024@1x.png'',
      ''SaviPets-iOS-Dark-1024x1024@1x.png'',
      ''SaviPets-iOS-TintedLight-1024x1024@1x.png'']"

text \<open>
  The body of the \<^verbatim>\<open>for\<close> loop of \<^verbatim>\<open>main\<close>. The rename is outside every \<^verbatim>\<open>try\<close>:
  an exception of \<^verbatim>\<open>os.rename\<close> is not caught here.
\<close>

definition process_icon :: "path \<Rightarrow> string \<Rightarrow> world \<Rightarrow> outcome \<times> world" where
  "process_icon d icon_file w =
     (let input_path = os_path_join d icon_file in
      if os_path_exists w input_path then
        (let backup_path = input_path @ ''.backup'' in
         case os_rename w input_path backup_path of
           (Raised e, w1) \<Rightarrow> (Raised e, w1)
         | (Returned, w1) \<Rightarrow> remove_transparency w1 backup_path input_path)
      else (Returned, print (icon_not_found_msg icon_file) w))"

text \<open>The loop itself: an exception of the body ends it.\<close>

fun process_icons :: "path \<Rightarrow> string list \<Rightarrow> world \<Rightarrow> outcome \<times> world" where
  "process_icons d [] w = (Returned, w)"
| "process_icons d (icon_file # rest) w =
     (case process_icon d icon_file w of
        (Raised e, w1) \<Rightarrow> (Raised e, w1)
      | (Returned, w1) \<Rightarrow> process_icons d rest w1)"

definition main :: "world \<Rightarrow> outcome \<times> world" where
  "main w =
     (if \<not> os_path_exists w app_icon_dir
      then (Returned, print (dir_not_found_msg app_icon_dir) w)
      else (case process_icons app_icon_dir icon_files w of
              (Raised e, w1) \<Rightarrow> (Raised e, w1)
            | (Returned, w1) \<Rightarrow> (Returned, foldl (\<lambda>v s. print s v) w1 complete_msgs)))"

section \<open>The compositing formula of the specification\<close>


section \<open>Auxiliary definitions\<close>

text \<open>The image that the in-memory steps of \<open>remove_transparency_try\<close> arrive at.\<close>

definition flattened :: "image \<Rightarrow> image" where
  "flattened img =
     \<lparr>im_size = im_size img,
      im_data = DataRGB (map (\<lambda>(r, g, b, a). (BLEND a 255 r, BLEND a 255 g, BLEND a 255 b))
                  (take (fst (im_size img) * snd (im_size img)) (rgba_pixels (im_data img))))\<rparr>"

text \<open>The two paths that the loop body touches for a file name.\<close>

definition touched :: "path \<Rightarrow> string \<Rightarrow> path set" where
  "touched d f = {os_path_join d f, os_path_join d f @ ''.backup''}"

text \<open>File names whose paths and backup paths do not collide.\<close>

fun separate :: "path \<Rightarrow> string list \<Rightarrow> bool" where
  "separate d [] = True"
| "separate d (f # rest) = ((\<forall>g \<in> set rest. touched d g \<inter> touched d f = {}) \<and> separate d rest)"

text \<open>Concrete worlds and images on which the theorems below are exercised.\<close>

definition empty_world :: world where
  "empty_world = \<lparr>fs = Map.empty, stdout = [], rename_fault = (\<lambda>src dst. None),
                   save_fault = (\<lambda>p. None)\<rparr>"

definition world_with :: "path \<Rightarrow> image \<Rightarrow> world" where
  "world_with p img = empty_world\<lparr>fs := [p \<mapsto> File (Png img)]\<rparr>"

definition translucent_image :: image where
  "translucent_image = \<lparr>im_size = (2, 1), im_data = DataRGBA [(10, 20, 30, 128), (200, 100, 0, 77)]\<rparr>"

definition opaque_image :: image where
  "opaque_image = \<lparr>im_size = (2, 1), im_data = DataRGBA [(10, 20, 30, 255), (200, 100, 0, 255)]\<rparr>"

definition transparent_image :: image where
  "transparent_image = \<lparr>im_size = (2, 1), im_data = DataRGBA [(0, 0, 0, 0), (200, 100, 0, 0)]\<rparr>"



text \<open>
  The root exists; the first icon is a translucent PNG, the second is not decodable, the
  third is absent; nothing is refused.
\<close>

definition mixed_world :: world where
  "mixed_world =
     \<lparr>fs = [app_icon_dir \<mapsto> Dir,
             os_path_join app_icon_dir ''SaviPets-iOS-Default-1024x1024@1x.png''
               \<mapsto> File (Png translucent_image),
             os_path_join app_icon_dir ''SaviPets-iOS-Dark-1024x1024@1x.png''
               \<mapsto> File (Undecodable ''cannot identify image file'')],
      stdout = [],
      rename_fault = (\<lambda>src dst. None),
      save_fault = (\<lambda>p. None)\<rparr>"

text \<open>The first icon exists and so does a file at its backup path.\<close>

definition rerun_world :: world where
  "rerun_world =
     \<lparr>fs = [app_icon_dir \<mapsto> Dir,
             os_path_join app_icon_dir ''SaviPets-iOS-Default-1024x1024@1x.png''
               \<mapsto> File (Png opaque_image),
             os_path_join app_icon_dir ''SaviPets-iOS-Default-1024x1024@1x.png'' @ ''.backup''
               \<mapsto> File (Png translucent_image)],
      stdout = [],
      rename_fault = (\<lambda>src dst. None),
      save_fault = (\<lambda>p. None)\<rparr>"

section \<open>Arithmetic of the blend\<close>

lemma DIV255_round:
  assumes "a \<le> 65025"
  shows "DIV255 a = (2 * a + 255) div 510"
proof -
  define q where "q = a div 255"
  define r where "r = a mod 255"
  have a: "a = 255 * q + r" by (simp add: q_def r_def)
  have r: "r < 255" by (simp add: r_def)
  have q: "q \<le> 255" using assms by (simp add: q_def)
  have rhs: "(2 * a + 255) div 510 = (if r \<le> 127 then q else q + 1)"
    by (rule div_nat_eqI) (use a r in auto)
  consider (lo) "r + 128 < q" | (mid) "q \<le> r + 128" "r + 128 < q + 256" | (hi) "q + 256 \<le> r + 128"
    by linarith
  then have lhs: "((a + 128) div 256 + (a + 128)) div 256 = (if r \<le> 127 then q else q + 1)"
  proof cases
    case lo
    have "(a + 128) div 256 = q - 1"
      by (rule div_nat_eqI) (use a r q lo in auto)
    moreover have "(q - 1 + (a + 128)) div 256 = q"
      by (rule div_nat_eqI) (use a r q lo in auto)
    ultimately show ?thesis using lo q by auto
  next
    case mid
    have "(a + 128) div 256 = q"
      by (rule div_nat_eqI) (use a r q mid in auto)
    moreover have "(q + (a + 128)) div 256 = (if r \<le> 127 then q else q + 1)"
      by (rule div_nat_eqI) (use a r q mid in auto)
    ultimately show ?thesis by simp
  next
    case hi
    have "(a + 128) div 256 = q + 1"
      by (rule div_nat_eqI) (use a r q hi in auto)
    moreover have "(q + 1 + (a + 128)) div 256 = q + 1"
      by (rule div_nat_eqI) (use a r q hi in auto)
    ultimately show ?thesis using hi by auto
  qed
  show ?thesis
    unfolding DIV255_def Let_def drop_bit_eq_div using lhs rhs by simp
qed

lemma unat_byte_le: "unat (x::byte) \<le> 255"
  using unsigned_less[of x, where 'a = nat] by simp

lemma blend_arg_le:
  "unat (x::byte) * (255 - unat (m::byte)) + unat (y::byte) * unat m \<le> 65025"
proof -
  have "unat x * (255 - unat m) + unat y * unat m \<le> 255 * (255 - unat m) + 255 * unat m"
    by (intro add_mono mult_le_mono1 unat_byte_le)
  also have "\<dots> = 65025" using unat_byte_le[of m] by simp
  finally show ?thesis .
qed

lemma unat_BLEND:
  "unat (BLEND m x y) = (2 * (unat x * (255 - unat m) + unat y * unat m) + 255) div 510"
proof -
  let ?k = "unat x * (255 - unat m) + unat y * unat m"
  have "DIV255 ?k \<le> 255" using blend_arg_le[of x m y] by (simp add: DIV255_round)
  then have "unat (of_nat (DIV255 ?k) :: byte) = DIV255 ?k"
    by (simp add: unat_of_nat)
  then show ?thesis by (simp add: BLEND_def DIV255_round[OF blend_arg_le])
qed



lemma BLEND_0: "BLEND 0 x y = x"
proof -
  have "unat (BLEND 0 x y) = unat x" using unat_byte_le[of x] by (simp add: unat_BLEND)
  then show ?thesis by (simp add: word_unat_eq_iff)
qed

section \<open>The in-memory steps\<close>


lemma paste_zip:
  "map (\<lambda>(p, q, m). paste_pixel p q m)
       (zip (replicate N (255, 255, 255)) (zip ps (map (\<lambda>(r, g, b, a). a) ps)))
   = map (\<lambda>(r, g, b, a). (BLEND a 255 r, BLEND a 255 g, BLEND a 255 b)) (take N ps)"
proof (induction ps arbitrary: N)
  case Nil
  then show ?case by simp
next
  case (Cons x xs)
  show ?case
  proof (cases N)
    case 0
    then show ?thesis by simp
  next
    case (Suc n)
    obtain r g b a where x: "x = (r, g, b, a)" by (cases x)
    show ?thesis using Cons.IH[of n] by (simp add: Suc x)
  qed
qed

lemma prepared_data:
  "im_data (if mode img \<noteq> ModeRGBA then convert_RGBA img else img) = DataRGBA (rgba_pixels (im_data img))"
  by (cases "im_data img") (simp_all add: mode_def convert_RGBA_def)

lemma prepared_size:
  "im_size (if mode img \<noteq> ModeRGBA then convert_RGBA img else img) = im_size img"
  by (simp add: convert_RGBA_def)

lemma paste_flattened:
  assumes "img' = (if mode img \<noteq> ModeRGBA then convert_RGBA img else img)"
  shows "paste (Image_new_RGB (im_size img') (255, 255, 255)) img' (last (split_im img'))
         = Inr (flattened img)"
proof -
  have d: "im_data img' = DataRGBA (rgba_pixels (im_data img))"
    unfolding assms by (rule prepared_data)
  have s: "im_size img' = im_size img"
    unfolding assms by (rule prepared_size)
  have l: "last (split_im img')
           = \<lparr>im_size = im_size img, im_data = DataL (map (\<lambda>(r, g, b, a). a) (rgba_pixels (im_data img)))\<rparr>"
    by (simp add: split_im_def d s)
  show ?thesis
    by (simp add: paste_def l d s Image_new_RGB_def flattened_def paste_zip)
qed

section \<open>The flatten operation on the file system\<close>

lemma try_flattened:
  "remove_transparency_try w p q =
     (case Image_open w p of
        Inl e \<Rightarrow> (Raised e, w)
      | Inr img \<Rightarrow>
          (case save w (flattened img) q of
             (Raised e, w1) \<Rightarrow> (Raised e, w1)
           | (Returned, w1) \<Rightarrow> (Returned, print (fixed_msg p q) w1)))"
  by (simp add: remove_transparency_try_def Let_def paste_flattened split: sum.split)



lemma rt_returns: "fst (remove_transparency w p q) = Returned"
  by (simp add: remove_transparency_def split: prod.split outcome.split)

lemma rt_cases:
  "(\<exists>img. Image_open w p = Inr img \<and> fs w q \<noteq> Some Dir \<and> save_fault w q = None \<and>
      remove_transparency w p q =
        (Returned, print (fixed_msg p q) (w\<lparr>fs := (fs w)(q \<mapsto> File (Png (flattened img)))\<rparr>)))
   \<or> (\<exists>e. remove_transparency_try w p q = (Raised e, w) \<and>
         remove_transparency w p q = (Returned, print (error_msg p e) w))"
proof (cases "Image_open w p")
  case (Inl e)
  then show ?thesis by (simp add: remove_transparency_def try_flattened)
next
  case (Inr img)
  then show ?thesis
    by (auto simp: remove_transparency_def try_flattened save_def split: option.split)
qed

lemma rt_frame: "x \<noteq> q \<Longrightarrow> fs (snd (remove_transparency w p q)) x = fs w x"
  using rt_cases[of w p q] by (auto simp: print_def)

lemma rt_rename_fault: "rename_fault (snd (remove_transparency w p q)) = rename_fault w"
  using rt_cases[of w p q] by (auto simp: print_def)

lemma rt_save_fault: "save_fault (snd (remove_transparency w p q)) = save_fault w"
  using rt_cases[of w p q] by (auto simp: print_def)

lemma rgba_pixels_length: "length (rgba_pixels d) = data_length d"
  by (cases d) simp_all

lemma flattened_wf:
  "wf_image img \<Longrightarrow>
   flattened img = \<lparr>im_size = im_size img,
      im_data = DataRGB (map (\<lambda>(r, g, b, a). (BLEND a 255 r, BLEND a 255 g, BLEND a 255 b))
                  (rgba_pixels (im_data img)))\<rparr>"
  by (simp add: flattened_def wf_image_def rgba_pixels_length)

lemma flattened_mode: "mode (flattened img) = ModeRGB"
  by (simp add: flattened_def mode_def)

lemma flattened_size: "im_size (flattened img) = im_size img"
  by (simp add: flattened_def)

lemma rt_ok:
  assumes "Image_open w p = Inr img" "fs w q \<noteq> Some Dir" "save_fault w q = None"
  shows "remove_transparency w p q =
     (Returned, print (fixed_msg p q) (w\<lparr>fs := (fs w)(q \<mapsto> File (Png (flattened img)))\<rparr>))"
  using assms by (simp add: remove_transparency_def try_flattened save_def)

lemma rt_ok_fs:
  assumes "Image_open w p = Inr img" "fs w q \<noteq> Some Dir" "save_fault w q = None"
  shows "fs (snd (remove_transparency w p q)) q = Some (File (Png (flattened img)))"
  by (simp add: rt_ok[OF assms] print_def)


section \<open>Claims about the flattened pixels\<close>




lemma flatten_transparent_pixels:
  assumes "\<forall>(r, g, b, a) \<in> set ps. a = 0"
  shows "map (\<lambda>(r, g, b, a). (BLEND a 255 r, BLEND a 255 g, BLEND a 255 b)) ps
         = replicate (length ps) (255, 255, 255)"
  using assms by (induction ps) (auto simp: BLEND_0)



text \<open>
  C3. For an input image whose alpha is 0 at every pixel, the image that
  \<open>remove_transparency\<close> writes is white, (255, 255, 255), at every pixel.
\<close>

theorem flatten_transparent_is_white:
  assumes "Image_open w image_path = Inr img"
    and "wf_image img"
    and "\<forall>(r, g, b, a) \<in> set (rgba_pixels (im_data img)). a = 0"
    and "fs w output_path \<noteq> Some Dir"
    and "save_fault w output_path = None"
  shows "\<exists>out.
           fs (snd (remove_transparency w image_path output_path)) output_path
             = Some (File (Png out))
         \<and> im_size out = im_size img
         \<and> im_data out
             = DataRGB (replicate (fst (im_size img) * snd (im_size img)) (255, 255, 255))"
proof -
  have "fs (snd (remove_transparency w image_path output_path)) output_path
          = Some (File (Png (flattened img)))"
    by (rule rt_ok_fs) (use assms in auto)
  moreover have "length (rgba_pixels (im_data img)) = fst (im_size img) * snd (im_size img)"
    using assms(2) by (simp add: wf_image_def rgba_pixels_length)
  then have "im_data (flattened img)
          = DataRGB (replicate (fst (im_size img) * snd (im_size img)) (255, 255, 255))"
    by (simp add: flattened_wf[OF assms(2)] flatten_transparent_pixels[OF assms(3)])
  ultimately show ?thesis using flattened_size[of img] by blast
qed

theorem flatten_transparent_is_white_witness:
  "Image_open (world_with ''icon.png.backup'' transparent_image) ''icon.png.backup''
     = Inr transparent_image
   \<and> wf_image transparent_image
   \<and> rgba_pixels (im_data transparent_image) = [(0, 0, 0, 0), (200, 100, 0, 0)]
   \<and> (\<exists>out.
           fs (snd (remove_transparency (world_with ''icon.png.backup'' transparent_image)
                      ''icon.png.backup'' ''icon.png'')) ''icon.png''
             = Some (File (Png out))
         \<and> im_size out = im_size transparent_image
         \<and> im_data out = DataRGB [(255, 255, 255), (255, 255, 255)])"
proof -
  let ?w = "world_with ''icon.png.backup'' transparent_image"
  have 1: "Image_open ?w ''icon.png.backup'' = Inr transparent_image"
    by (simp add: Image_open_def world_with_def empty_world_def)
  have 2: "wf_image transparent_image"
    by (simp add: wf_image_def transparent_image_def)
  have 3: "\<forall>(r, g, b, a) \<in> set (rgba_pixels (im_data transparent_image)). a = 0"
    by (simp add: transparent_image_def)
  have 4: "fs ?w ''icon.png'' \<noteq> Some Dir"
    by (simp add: world_with_def empty_world_def)
  have 5: "save_fault ?w ''icon.png'' = None"
    by (simp add: world_with_def empty_world_def)
  have 6: "replicate (fst (im_size transparent_image) * snd (im_size transparent_image))
             (255 :: byte, 255 :: byte, 255 :: byte) = [(255, 255, 255), (255, 255, 255)]"
    by (simp add: transparent_image_def numeral_2_eq_2)
  have 7: "rgba_pixels (im_data transparent_image) = [(0, 0, 0, 0), (200, 100, 0, 0)]"
    by (simp add: transparent_image_def)
  show ?thesis
    using 1 2 7 flatten_transparent_is_white[OF 1 2 3 4 5] unfolding 6 by blast
qed

section \<open>Claims about the run\<close>





section \<open>The loop body\<close>

lemma os_rename_cases:
  assumes "fs w src = Some n"
  shows "os_rename w src dst = (Returned, w\<lparr>fs := (fs w)(src := None, dst \<mapsto> n)\<rparr>)
         \<or> (\<exists>e. os_rename w src dst = (Raised e, w))"
  using assms by (simp add: os_rename_def split: option.split)

lemma pi_absent:
  "fs w (os_path_join d f) = None \<Longrightarrow>
   process_icon d f w = (Returned, print (icon_not_found_msg f) w)"
  by (simp add: process_icon_def os_path_exists_def)

lemma pi_present:
  "fs w (os_path_join d f) = Some n \<Longrightarrow>
   process_icon d f w =
     (case os_rename w (os_path_join d f) (os_path_join d f @ ''.backup'') of
        (Raised e, w1) \<Rightarrow> (Raised e, w1)
      | (Returned, w1) \<Rightarrow>
          remove_transparency w1 (os_path_join d f @ ''.backup'') (os_path_join d f))"
  by (simp add: process_icon_def os_path_exists_def Let_def)

lemma pi_cases:
  "(fs w (os_path_join d f) = None \<and>
      process_icon d f w = (Returned, print (icon_not_found_msg f) w))
   \<or> (\<exists>n e. fs w (os_path_join d f) = Some n \<and>
         os_rename w (os_path_join d f) (os_path_join d f @ ''.backup'') = (Raised e, w) \<and>
         process_icon d f w = (Raised e, w))
   \<or> (\<exists>n. fs w (os_path_join d f) = Some n \<and>
         os_rename w (os_path_join d f) (os_path_join d f @ ''.backup'')
           = (Returned, w\<lparr>fs := (fs w)(os_path_join d f := None,
                                        os_path_join d f @ ''.backup'' \<mapsto> n)\<rparr>) \<and>
         process_icon d f w =
           remove_transparency
             (w\<lparr>fs := (fs w)(os_path_join d f := None, os_path_join d f @ ''.backup'' \<mapsto> n)\<rparr>)
             (os_path_join d f @ ''.backup'') (os_path_join d f))"
proof (cases "fs w (os_path_join d f)")
  case None
  then show ?thesis by (simp add: pi_absent)
next
  case (Some n)
  from os_rename_cases[OF Some, of "os_path_join d f @ ''.backup''"] Some
  show ?thesis by (auto simp: pi_present)
qed

lemma pi_frame:
  assumes "x \<notin> touched d f"
  shows "fs (snd (process_icon d f w)) x = fs w x"
proof -
  from assms have x: "x \<noteq> os_path_join d f" "x \<noteq> os_path_join d f @ ''.backup''"
    by (auto simp: touched_def)
  from pi_cases[of w d f] show ?thesis
    by (auto simp: print_def rt_frame x)
qed

lemma pi_rename_fault: "rename_fault (snd (process_icon d f w)) = rename_fault w"
  using pi_cases[of w d f] by (auto simp: print_def rt_rename_fault)

lemma pi_save_fault: "save_fault (snd (process_icon d f w)) = save_fault w"
  using pi_cases[of w d f] by (auto simp: print_def rt_save_fault)



lemma pi_raised:
  assumes "process_icon d f w = (Raised e, w')"
  shows "w' = w \<and> fs w (os_path_join d f) \<noteq> None
         \<and> os_rename w (os_path_join d f) (os_path_join d f @ ''.backup'') = (Raised e, w)"
proof -
  from pi_cases[of w d f] assms rt_returns show ?thesis
    by (metis fst_conv outcome.distinct(1) prod.inject option.distinct(1))
qed

section \<open>The loop\<close>

lemma sep_path:
  assumes "separate d (g # rest)" "h \<in> set rest"
  shows "touched d h \<inter> touched d g = {}"
    and "os_path_join d h \<notin> touched d g"
    and "os_path_join d h @ ''.backup'' \<notin> touched d g"
    and "os_path_join d g \<notin> touched d h"
    and "os_path_join d g @ ''.backup'' \<notin> touched d h"
    and "h \<noteq> g"
proof -
  from assms show d: "touched d h \<inter> touched d g = {}" by simp
  have "os_path_join d h \<in> touched d h" "os_path_join d h @ ''.backup'' \<in> touched d h"
       "os_path_join d g \<in> touched d g" "os_path_join d g @ ''.backup'' \<in> touched d g"
    by (simp_all add: touched_def)
  with d show "os_path_join d h \<notin> touched d g" "os_path_join d h @ ''.backup'' \<notin> touched d g"
       "os_path_join d g \<notin> touched d h" "os_path_join d g @ ''.backup'' \<notin> touched d h" "h \<noteq> g"
    by blast+
qed


lemma pis_step:
  "process_icons d (g # rest) w =
     (if fst (process_icon d g w) = Returned
      then process_icons d rest (snd (process_icon d g w))
      else process_icon d g w)"
  by (cases "process_icon d g w") (auto split: outcome.split)

declare process_icons.simps(2) [simp del]

lemma pis_Returned_step:
  assumes "process_icons d (g # rest) w = (Returned, w')"
  shows "\<exists>w1. process_icon d g w = (Returned, w1) \<and> process_icons d rest w1 = (Returned, w')"
  using assms by (auto simp: process_icons.simps(2) split: prod.splits outcome.splits)

lemma pis_frame:
  "(\<And>f. f \<in> set names \<Longrightarrow> x \<notin> touched d f) \<Longrightarrow>
   fs (snd (process_icons d names w)) x = fs w x"
proof (induction names arbitrary: w)
  case Nil
  then show ?case by simp
next
  case (Cons g rest)
  have g: "fs (snd (process_icon d g w)) x = fs w x"
    by (rule pi_frame) (simp add: Cons.prems)
  have r: "fs (snd (process_icons d rest (snd (process_icon d g w)))) x
           = fs (snd (process_icon d g w)) x"
    by (rule Cons.IH) (simp add: Cons.prems)
  show ?case using g r by (simp add: pis_step)
qed

lemma pis_rename_fault: "rename_fault (snd (process_icons d names w)) = rename_fault w"
  by (induction names arbitrary: w) (simp_all add: pis_step pi_rename_fault)

lemma pis_save_fault: "save_fault (snd (process_icons d names w)) = save_fault w"
  by (induction names arbitrary: w) (simp_all add: pis_step pi_save_fault)






lemma separate_icon_files: "separate app_icon_dir icon_files"
  by (simp add: touched_def os_path_join_def app_icon_dir_def icon_files_def)

lemma backup_neq: "p @ ''.backup'' \<noteq> p"
  by simp

lemma pi_flattened:
  assumes "fs w (os_path_join d f) = Some (File (Png img))"
    and "save_fault w (os_path_join d f) = None"
    and "process_icon d f w = (Returned, w1)"
  shows "fs w1 (os_path_join d f) = Some (File (Png (flattened img)))
         \<and> fs w1 (os_path_join d f @ ''.backup'') = Some (File (Png img))"
proof -
  let ?p = "os_path_join d f"
  let ?v = "w\<lparr>fs := (fs w)(?p := None, ?p @ ''.backup'' \<mapsto> File (Png img))\<rparr>"
  from pi_cases[of w d f] assms(1,3)
  have run: "remove_transparency ?v (?p @ ''.backup'') ?p = (Returned, w1)"
    by auto
  have o: "Image_open ?v (?p @ ''.backup'') = Inr img"
    by (simp add: Image_open_def)
  have nd: "fs ?v ?p \<noteq> Some Dir" by simp
  have sf: "save_fault ?v ?p = None" using assms(2) by simp
  from rt_ok[OF o nd sf] run
  have "w1 = print (fixed_msg (?p @ ''.backup'') ?p)
               (?v\<lparr>fs := (fs ?v)(?p \<mapsto> File (Png (flattened img)))\<rparr>)"
    by simp
  then show ?thesis by (simp add: print_def)
qed

lemma pis_flattened:
  "separate d names \<Longrightarrow> f \<in> set names \<Longrightarrow>
   fs w (os_path_join d f) = Some (File (Png img)) \<Longrightarrow>
   save_fault w (os_path_join d f) = None \<Longrightarrow>
   process_icons d names w = (Returned, w') \<Longrightarrow>
   fs w' (os_path_join d f) = Some (File (Png (flattened img)))
   \<and> fs w' (os_path_join d f @ ''.backup'') = Some (File (Png img))"
proof (induction names arbitrary: w)
  case Nil
  then show ?case by simp
next
  case (Cons g rest)
  from pis_Returned_step[OF Cons.prems(5)] obtain w1 where
    w1: "process_icon d g w = (Returned, w1)" and r: "process_icons d rest w1 = (Returned, w')"
    by blast
  show ?case
  proof (cases "g = f")
    case True
    from pi_flattened[OF Cons.prems(3,4) w1[unfolded True]]
    have a: "fs w1 (os_path_join d f) = Some (File (Png (flattened img)))"
      and b: "fs w1 (os_path_join d f @ ''.backup'') = Some (File (Png img))"
      by simp_all
    have "fs (snd (process_icons d rest w1)) (os_path_join d f) = fs w1 (os_path_join d f)"
      by (rule pis_frame) (use sep_path(4)[OF Cons.prems(1)] True in simp)
    moreover have "fs (snd (process_icons d rest w1)) (os_path_join d f @ ''.backup'')
                   = fs w1 (os_path_join d f @ ''.backup'')"
      by (rule pis_frame) (use sep_path(5)[OF Cons.prems(1)] True in simp)
    ultimately show ?thesis using a b r by simp
  next
    case False
    with Cons.prems(2) have f: "f \<in> set rest" by simp
    have p: "fs w1 (os_path_join d f) = fs w (os_path_join d f)"
      using pi_frame[OF sep_path(2)[OF Cons.prems(1) f], of w] w1 by simp
    have s: "save_fault w1 = save_fault w"
      using pi_save_fault[of d g w] w1 by simp
    from Cons.prems(1) have sep: "separate d rest" by simp
    show ?thesis
      by (rule Cons.IH[OF sep f _ _ r]) (simp_all add: p s Cons.prems)
  qed
qed


section \<open>Messages and the whole run\<close>







lemma main_present:
  assumes "fs w app_icon_dir \<noteq> None"
  shows "main w =
     (case process_icons app_icon_dir icon_files w of
        (Raised e, w1) \<Rightarrow> (Raised e, w1)
      | (Returned, w1) \<Rightarrow> (Returned, w1\<lparr>stdout := stdout w1 @ complete_msgs\<rparr>))"
  using assms
  by (simp add: main_def os_path_exists_def complete_msgs_def print_def
           split: prod.split outcome.split)

lemma main_Returned:
  assumes "fs w app_icon_dir \<noteq> None" "main w = (Returned, w')"
  shows "\<exists>v. process_icons app_icon_dir icon_files w = (Returned, v)
             \<and> w' = v\<lparr>stdout := stdout v @ complete_msgs\<rparr>"
  using assms(2) unfolding main_present[OF assms(1)]
  by (auto split: prod.splits outcome.splits)

lemma root_untouched: "f \<in> set icon_files \<Longrightarrow> app_icon_dir \<notin> touched app_icon_dir f"
  by (auto simp: touched_def os_path_join_def app_icon_dir_def icon_files_def)

section \<open>Example runs\<close>

lemmas run_simps =
  main_def process_icons.simps process_icon_def os_path_exists_def os_rename_def
  remove_transparency_def try_flattened Image_open_def save_def print_def
  os_path_join_def app_icon_dir_def icon_files_def Let_def


lemma fst_main_mixed_world: "fst (main mixed_world) = Returned"
  by (simp add: mixed_world_def run_simps complete_msgs_def)

lemma fst_main_twice_mixed_world: "fst (main (snd (main mixed_world))) = Returned"
  by (simp add: mixed_world_def run_simps complete_msgs_def)

section \<open>Claims about missing files and the end of the run\<close>







section \<open>Claims about one step of the loop\<close>



text \<open>
  C7. For a listed name whose file exists, the loop body first renames the path to the
  path with \<^verbatim>\<open>.backup\<close> appended and only then calls \<open>remove_transparency\<close>, with the backup
  path as the image to read and the original path as the output. After the rename the
  backup path holds what the original path held; a file that was at the backup path before
  is replaced without any check.
\<close>

theorem rename_precedes_flatten:
  assumes "fs w (os_path_join d icon_file) = Some n"
  shows "process_icons d (icon_file # rest) w
           = (case os_rename w (os_path_join d icon_file) (os_path_join d icon_file @ ''.backup'') of
                (Raised e, w1) \<Rightarrow> (Raised e, w1)
              | (Returned, w1) \<Rightarrow>
                  process_icons d rest
                    (snd (remove_transparency w1 (os_path_join d icon_file @ ''.backup'')
                            (os_path_join d icon_file))))
         \<and> (\<forall>w1. os_rename w (os_path_join d icon_file) (os_path_join d icon_file @ ''.backup'')
                    = (Returned, w1) \<longrightarrow>
                  fs w1 (os_path_join d icon_file) = None
                \<and> fs w1 (os_path_join d icon_file @ ''.backup'') = Some n)
         \<and> (\<forall>c old. n = File c
                \<and> fs w (os_path_join d icon_file @ ''.backup'') = Some (File old)
                \<and> rename_fault w (os_path_join d icon_file)
                     (os_path_join d icon_file @ ''.backup'') = None \<longrightarrow>
                os_rename w (os_path_join d icon_file) (os_path_join d icon_file @ ''.backup'')
                  = (Returned,
                     w\<lparr>fs := (fs w)(os_path_join d icon_file := None,
                                     os_path_join d icon_file @ ''.backup'' \<mapsto> File c)\<rparr>))"
proof -
  let ?p = "os_path_join d icon_file"
  have a: "process_icons d (icon_file # rest) w
           = (case os_rename w ?p (?p @ ''.backup'') of
                (Raised e, w1) \<Rightarrow> (Raised e, w1)
              | (Returned, w1) \<Rightarrow>
                  process_icons d rest (snd (remove_transparency w1 (?p @ ''.backup'') ?p)))"
    using rt_returns
    by (auto simp: pis_step pi_present[OF assms] split: prod.split outcome.split)
  have b: "\<forall>w1. os_rename w ?p (?p @ ''.backup'') = (Returned, w1) \<longrightarrow>
                  fs w1 ?p = None \<and> fs w1 (?p @ ''.backup'') = Some n"
    using os_rename_cases[OF assms, of "?p @ ''.backup''"] by auto
  have c: "\<forall>c old. n = File c \<and> fs w (?p @ ''.backup'') = Some (File old)
                \<and> rename_fault w ?p (?p @ ''.backup'') = None \<longrightarrow>
                os_rename w ?p (?p @ ''.backup'')
                  = (Returned, w\<lparr>fs := (fs w)(?p := None, ?p @ ''.backup'' \<mapsto> File c)\<rparr>)"
    using assms by (simp add: os_rename_def)
  show ?thesis using a b c by blast
qed

theorem rename_precedes_flatten_witness:
  "fs rerun_world (os_path_join app_icon_dir ''SaviPets-iOS-Default-1024x1024@1x.png'')
     = Some (File (Png opaque_image))
   \<and> fs rerun_world (os_path_join app_icon_dir ''SaviPets-iOS-Default-1024x1024@1x.png'' @ ''.backup'')
     = Some (File (Png translucent_image))
   \<and> rename_fault rerun_world
        (os_path_join app_icon_dir ''SaviPets-iOS-Default-1024x1024@1x.png'')
        (os_path_join app_icon_dir ''SaviPets-iOS-Default-1024x1024@1x.png'' @ ''.backup'') = None
   \<and> os_rename rerun_world
        (os_path_join app_icon_dir ''SaviPets-iOS-Default-1024x1024@1x.png'')
        (os_path_join app_icon_dir ''SaviPets-iOS-Default-1024x1024@1x.png'' @ ''.backup'')
     = (Returned,
        rerun_world\<lparr>fs := (fs rerun_world)
          (os_path_join app_icon_dir ''SaviPets-iOS-Default-1024x1024@1x.png'' := None,
           os_path_join app_icon_dir ''SaviPets-iOS-Default-1024x1024@1x.png'' @ ''.backup''
             \<mapsto> File (Png opaque_image))\<rparr>)"
proof -
  let ?p = "os_path_join app_icon_dir ''SaviPets-iOS-Default-1024x1024@1x.png''"
  have 1: "fs rerun_world ?p = Some (File (Png opaque_image))"
    by (simp add: rerun_world_def run_simps)
  have 2: "fs rerun_world (?p @ ''.backup'') = Some (File (Png translucent_image))"
    by (simp add: rerun_world_def run_simps)
  have 3: "rename_fault rerun_world ?p (?p @ ''.backup'') = None"
    by (simp add: rerun_world_def)
  show ?thesis
    using 1 2 3 rename_precedes_flatten[OF 1, of "[]"] by blast
qed

section \<open>Claims about a second run\<close>

lemma main_flattened:
  assumes "fs w app_icon_dir \<noteq> None"
    and "f \<in> set icon_files"
    and "fs w (os_path_join app_icon_dir f) = Some (File (Png img))"
    and "save_fault w (os_path_join app_icon_dir f) = None"
    and "fst (main w) = Returned"
  shows "fs (snd (main w)) (os_path_join app_icon_dir f) = Some (File (Png (flattened img)))"
    and "fs (snd (main w)) (os_path_join app_icon_dir f @ ''.backup'') = Some (File (Png img))"
    and "fs (snd (main w)) app_icon_dir \<noteq> None"
    and "save_fault (snd (main w)) = save_fault w"
proof -
  from assms(5) have "main w = (Returned, snd (main w))"
    by (metis prod.collapse)
  from main_Returned[OF assms(1) this] obtain v where
    v: "process_icons app_icon_dir icon_files w = (Returned, v)"
    and w': "snd (main w) = v\<lparr>stdout := stdout v @ complete_msgs\<rparr>"
    by blast
  from pis_flattened[OF separate_icon_files assms(2,3,4) v]
  show "fs (snd (main w)) (os_path_join app_icon_dir f) = Some (File (Png (flattened img)))"
    and "fs (snd (main w)) (os_path_join app_icon_dir f @ ''.backup'') = Some (File (Png img))"
    by (simp_all add: w')
  have "fs (snd (process_icons app_icon_dir icon_files w)) app_icon_dir = fs w app_icon_dir"
    by (rule pis_frame) (rule root_untouched)
  with assms(1) show "fs (snd (main w)) app_icon_dir \<noteq> None"
    by (simp add: v w')
  from pis_save_fault[of app_icon_dir icon_files w]
  show "save_fault (snd (main w)) = save_fault w"
    by (simp add: v w')
qed

lemma flattened_ne:
  "has_alpha_mode (mode img) \<Longrightarrow> flattened x \<noteq> img"
  using flattened_mode[of x] by auto

text \<open>
  C8. Running \<open>main\<close> twice does not keep the first backup. For a listed icon that the
  first run flattened (a decodable file, saved without fault, both runs reaching their
  end), the first run leaves the original image at the backup path and the flattened one
  at the original path; after the second run the backup path holds that flattened image,
  which has no alpha channel, and an original with an alpha channel is at neither path
  any more.
\<close>

theorem second_run_overwrites_backup:
  assumes "fs w app_icon_dir \<noteq> None"
    and "f \<in> set icon_files"
    and "fs w (os_path_join app_icon_dir f) = Some (File (Png img))"
    and "save_fault w (os_path_join app_icon_dir f) = None"
    and "fst (main w) = Returned"
    and "fst (main (snd (main w))) = Returned"
  shows "\<exists>out.
           fs (snd (main w)) (os_path_join app_icon_dir f) = Some (File (Png out))
         \<and> fs (snd (main w)) (os_path_join app_icon_dir f @ ''.backup'') = Some (File (Png img))
         \<and> \<not> has_alpha_mode (mode out)
         \<and> fs (snd (main (snd (main w)))) (os_path_join app_icon_dir f @ ''.backup'')
             = Some (File (Png out))
         \<and> (has_alpha_mode (mode img) \<longrightarrow>
               fs (snd (main (snd (main w)))) (os_path_join app_icon_dir f @ ''.backup'')
                 \<noteq> Some (File (Png img))
             \<and> fs (snd (main (snd (main w)))) (os_path_join app_icon_dir f)
                 \<noteq> Some (File (Png img)))"
proof -
  let ?p = "os_path_join app_icon_dir f"
  let ?w1 = "snd (main w)"
  let ?w2 = "snd (main ?w1)"
  note first = main_flattened[OF assms(1,2,3,4,5)]
  have sf: "save_fault ?w1 ?p = None" using first(4) assms(4) by simp
  note second = main_flattened[OF first(3) assms(2) first(1) sf assms(6)]
  have na: "\<not> has_alpha_mode (mode (flattened img))"
    by (simp add: flattened_mode)
  have lost: "has_alpha_mode (mode img) \<longrightarrow>
               fs ?w2 (?p @ ''.backup'') \<noteq> Some (File (Png img))
             \<and> fs ?w2 ?p \<noteq> Some (File (Png img))"
    using second(1,2) flattened_ne[of img] by auto
  show ?thesis
    using first(1,2) second(2) na lost by blast
qed

theorem second_run_overwrites_backup_witness:
  "fs mixed_world app_icon_dir \<noteq> None
   \<and> ''SaviPets-iOS-Default-1024x1024@1x.png'' \<in> set icon_files
   \<and> fs mixed_world (os_path_join app_icon_dir ''SaviPets-iOS-Default-1024x1024@1x.png'')
       = Some (File (Png translucent_image))
   \<and> has_alpha_mode (mode translucent_image)
   \<and> fst (main mixed_world) = Returned
   \<and> fst (main (snd (main mixed_world))) = Returned
   \<and> (\<exists>out.
         fs (snd (main mixed_world))
            (os_path_join app_icon_dir ''SaviPets-iOS-Default-1024x1024@1x.png'' @ ''.backup'')
           = Some (File (Png translucent_image))
       \<and> \<not> has_alpha_mode (mode out)
       \<and> fs (snd (main (snd (main mixed_world))))
            (os_path_join app_icon_dir ''SaviPets-iOS-Default-1024x1024@1x.png'' @ ''.backup'')
           = Some (File (Png out))
       \<and> fs (snd (main (snd (main mixed_world))))
            (os_path_join app_icon_dir ''SaviPets-iOS-Default-1024x1024@1x.png'' @ ''.backup'')
           \<noteq> Some (File (Png translucent_image)))"
proof -
  let ?f = "''SaviPets-iOS-Default-1024x1024@1x.png''"
  have 1: "fs mixed_world app_icon_dir \<noteq> None"
    by (simp add: mixed_world_def run_simps)
  have 2: "?f \<in> set icon_files" by (simp add: icon_files_def)
  have 3: "fs mixed_world (os_path_join app_icon_dir ?f) = Some (File (Png translucent_image))"
    by (simp add: mixed_world_def run_simps)
  have 4: "save_fault mixed_world (os_path_join app_icon_dir ?f) = None"
    by (simp add: mixed_world_def)
  have 5: "has_alpha_mode (mode translucent_image)"
    by (simp add: mode_def translucent_image_def)
  show ?thesis
    using 1 2 3 5 fst_main_mixed_world fst_main_twice_mixed_world
      second_run_overwrites_backup[OF 1 2 3 4 fst_main_mixed_world fst_main_twice_mixed_world]
    by blast
qed

end
